theory Spec2Isabelle
  imports Complex_Main "HOL-Library.Word"
begin

unbundle bit_operations_syntax

section \<open>Shallow embedding of \<open>src/ext_modules/graphics/init.cpp\<close>\<close>

text \<open>
  Addresses are machine words of the platform's pointer width \<open>'p\<close>; pointer arithmetic
  wraps modulo \<open>2 ^ LENGTH('p)\<close> and pointer comparison is the unsigned comparison of the
  addresses. The layout of the snapshot structures (\<open>SM64State\<close>, \<open>MarioState\<close>,
  \<open>QStepsInfo\<close>, \<open>Vtx\<close>, \<open>Surface\<close>) comes from a header that is not part of the
  sources, so the size of \<open>SM64State\<close> and the field readers are parameters of the model.
  The left summand of a result says how the run stopped without returning: \<open>exit(1)\<close>
  after a message on \<open>stderr\<close>, or an access that C++ leaves undefined.
\<close>

type_synonym u8 = "8 word"
type_synonym u32 = "32 word"
type_synonym s32 = "32 word"  \<comment> \<open>read as two's complement with \<open>sint\<close>\<close>

datatype diagnostic =
    Two_segments        \<comment> \<open>"Warning: segmented_to_virtual: Found two segments containing address"\<close>
  | GSPMatrix           \<comment> \<open>"gSPMatrix"\<close>
  | GSPDisplayList u32  \<comment> \<open>"gSPDisplayList: 0x%08X"\<close>
  | Subscript_beyond_size
      \<comment> \<open>no message: \<open>operator[]\<close> of a vector with an index that is not below \<open>size()\<close>\<close>

subsection \<open>\<open>segmented_to_virtual\<close>\<close>

record (overloaded) 'p SegmentEntry =
  srcStart :: "'p word"
  srcEnd :: "'p word"
  dstStart :: "'p word"

text \<open>
  The \<open>for\<close> loop of \<open>segmented_to_virtual\<close>, started at index \<open>i\<close> with the current
  \<open>result\<close>; the table is \<open>st->sSegmentTable\<close>, read at the indices below 32 only, and the
  null pointer is the word 0.
\<close>

function seg_scan ::
  "(nat \<Rightarrow> 'p::len SegmentEntry) \<Rightarrow> 'p word \<Rightarrow> nat \<Rightarrow> 'p word \<Rightarrow> diagnostic + 'p word" where
  "seg_scan tbl addr i result =
     (if i < 32 then
        (if srcStart (tbl i) \<le> addr \<and> addr < srcEnd (tbl i) then
           (if result \<noteq> 0 then Inl Two_segments
            else seg_scan tbl addr (i + 1) (addr - srcStart (tbl i) + dstStart (tbl i)))
         else seg_scan tbl addr (i + 1) result)
      else Inr (if result = 0 then addr else result))"
  by pat_completeness auto
termination
  by (relation "measure (\<lambda>(tbl, addr, i, result). 32 - i)") auto

declare seg_scan.simps [simp del]

definition segmented_to_virtual ::
  "(nat \<Rightarrow> 'p::len SegmentEntry) \<Rightarrow> 'p word \<Rightarrow> diagnostic + 'p word" where
  "segmented_to_virtual tbl addr = seg_scan tbl addr 0 0"

text \<open>The notions the specification uses for a descriptor and an address.\<close>

definition seg_contains :: "'p::len SegmentEntry \<Rightarrow> 'p word \<Rightarrow> bool" where
  "seg_contains e addr \<longleftrightarrow> srcStart e \<le> addr \<and> addr < srcEnd e"

definition seg_translate :: "'p::len SegmentEntry \<Rightarrow> 'p word \<Rightarrow> 'p word" where
  "seg_translate e addr = addr - srcStart e + dstStart e"

definition seg_hits_from :: "(nat \<Rightarrow> 'p::len SegmentEntry) \<Rightarrow> 'p word \<Rightarrow> nat \<Rightarrow> nat list" where
  "seg_hits_from tbl addr i = filter (\<lambda>j. seg_contains (tbl j) addr) [i..<32]"

definition seg_hits :: "(nat \<Rightarrow> 'p::len SegmentEntry) \<Rightarrow> 'p word \<Rightarrow> nat list" where
  "seg_hits tbl addr = seg_hits_from tbl addr 0"

text \<open>A zero-initialised segment table, the starting point of the concrete tables below.\<close>

definition zero_segment_table :: "nat \<Rightarrow> 'p::len SegmentEntry" where
  "zero_segment_table i = \<lparr>srcStart = 0, srcEnd = 0, dstStart = 0\<rparr>"

subsection \<open>\<open>GameState\<close> and \<open>GameState::from_base\<close>\<close>

record (overloaded) 'p GameState =
  frame :: s32
  base :: "'p word"
  data :: "'p word"

text \<open>
  \<open>from_base\<close>; \<open>sz\<close> is \<open>sizeof(sm64::SM64State)\<close>, so that \<open>(char *)(base + 1)\<close> is
  \<open>base + sz\<close>.
\<close>

definition from_base :: "nat \<Rightarrow> 'p::len GameState \<Rightarrow> 'p word \<Rightarrow> 'p word" where
  "from_base sz st addr =
     (if addr < base st \<or> addr \<ge> base st + of_nat sz then addr
      else addr - base st + data st)"

subsection \<open>Single-precision values and vectors\<close>

text \<open>
  An \<open>f32\<close> is either the finite value \<open>m * 2 ^ k / 2 ^ 149\<close> (\<open>Finite m k\<close>), an infinity or
  a NaN. The finite values of the binary32 format are those with \<open>\<bar>m\<bar> < 2 ^ 24\<close> and
  \<open>k \<le> 253\<close>: the smallest subnormal is \<open>2 ^ - 149\<close> and the largest exponent of the last
  mantissa bit is \<open>104\<close>.
\<close>

datatype f32 = Finite int nat | PInf | NInf | NaN

fun f32_ok :: "f32 \<Rightarrow> bool" where
  "f32_ok (Finite m k) \<longleftrightarrow> \<bar>m\<bar> < 2 ^ 24 \<and> k \<le> 253"
| "f32_ok _ \<longleftrightarrow> True"

definition f32_val :: "int \<Rightarrow> nat \<Rightarrow> real" where
  "f32_val m k = of_int m * 2 ^ k / 2 ^ 149"

text \<open>
  \<open>x > c\<close> and \<open>x < c\<close> for a \<open>float\<close> \<open>x\<close> and a \<open>double\<close> constant \<open>c\<close>: the promotion
  of \<open>x\<close> to \<open>double\<close> is exact, and every comparison with a NaN is false.
\<close>

fun f32_gt :: "f32 \<Rightarrow> real \<Rightarrow> bool" where
  "f32_gt (Finite m k) c \<longleftrightarrow> f32_val m k > c"
| "f32_gt PInf c \<longleftrightarrow> True"
| "f32_gt NInf c \<longleftrightarrow> False"
| "f32_gt NaN c \<longleftrightarrow> False"

fun f32_lt :: "f32 \<Rightarrow> real \<Rightarrow> bool" where
  "f32_lt (Finite m k) c \<longleftrightarrow> f32_val m k < c"
| "f32_lt PInf c \<longleftrightarrow> False"
| "f32_lt NInf c \<longleftrightarrow> True"
| "f32_lt NaN c \<longleftrightarrow> False"

text \<open>The \<open>double\<close> values of the literals \<open>0.01\<close> and \<open>0.707\<close> (round to nearest).\<close>

definition double_0_01 :: real where
  "double_0_01 = 5764607523034235 / 2 ^ 59"

definition double_0_707 :: real where
  "double_0_707 = 6368089873101881 / 2 ^ 53"

record vec3 =
  vx :: f32
  vy :: f32
  vz :: f32

subsection \<open>The scene\<close>

datatype SurfaceType = FLOOR | CEILING | WALL_X_PROJ | WALL_Z_PROJ

record Surface =
  surface_type :: SurfaceType
  vertices :: "vec3 \<times> vec3 \<times> vec3"
  normal :: vec3

record QuarterStep =
  intended_pos :: vec3
  result_pos :: vec3

record ObjectPathNode =
  pos :: vec3
  quarter_steps :: "QuarterStep list"

record ObjectPath =
  nodes :: "ObjectPathNode list"
  root_index :: nat

subsection \<open>Reading a snapshot\<close>

text \<open>The fields of \<open>sm64::Surface\<close> that \<open>render\<close> reads, the vertices converted to \<open>vec3\<close>.\<close>

record Surface_raw =
  vertex1 :: vec3
  vertex2 :: vec3
  vertex3 :: vec3
  raw_normal :: vec3

text \<open>
  The reads of snapshot memory. Each reader takes the address of the structure it reads
  from: \<open>gSurfacesAllocated\<close>, \<open>sSurfacePool\<close>, \<open>gMarioState\<close> and the two \<open>gQStepsInfo\<close>
  readers take the address of an \<open>SM64State\<close>, \<open>surface_at p i\<close> is \<open>p[i]\<close> for a
  \<open>Surface *p\<close>, \<open>mario_pos m\<close> is \<open>m->pos\<close>, \<open>read_u32 a\<close> is \<open>*(u32 *)a\<close> and
  \<open>vtx_ob v i\<close> is the \<open>vec3\<close> of \<open>v[i].v.ob\<close> for a \<open>Vtx *v\<close>.
\<close>

record (overloaded) 'p sm64_reader =
  sizeof_SM64State :: nat
  gSurfacesAllocated :: "'p word \<Rightarrow> s32"
  sSurfacePool :: "'p word \<Rightarrow> 'p word"
  surface_at :: "'p word \<Rightarrow> nat \<Rightarrow> Surface_raw"
  gMarioState :: "'p word \<Rightarrow> 'p word"
  mario_pos :: "'p word \<Rightarrow> vec3"
  qsteps_numSteps :: "'p word \<Rightarrow> s32"
  qsteps_steps :: "'p word \<Rightarrow> nat \<Rightarrow> QuarterStep"
  read_u32 :: "'p word \<Rightarrow> u32"
  vtx_ob :: "'p word \<Rightarrow> nat \<Rightarrow> vec3"

record (overloaded) 'p RenderInfo =
  current_state :: "'p GameState"
  path_states :: "'p GameState list"

subsection \<open>\<open>render\<close>: surfaces\<close>

definition classify_normal :: "vec3 \<Rightarrow> SurfaceType" where
  "classify_normal n =
     (if f32_gt (vy n) double_0_01 then FLOOR
      else if f32_lt (vy n) (- double_0_01) then CEILING
      else if f32_lt (vx n) (- double_0_707) \<or> f32_gt (vx n) double_0_707 then WALL_X_PROJ
      else WALL_Z_PROJ)"

definition scene_surface :: "Surface_raw \<Rightarrow> Surface" where
  "scene_surface surface =
     \<lparr>surface_type = classify_normal (raw_normal surface),
      vertices = (vertex1 surface, vertex2 surface, vertex3 surface),
      normal = raw_normal surface\<rparr>"

definition scene_surfaces :: "'p::len sm64_reader \<Rightarrow> 'p GameState \<Rightarrow> Surface list" where
  "scene_surfaces rd st =
     map (\<lambda>i. scene_surface
            (surface_at rd (from_base (sizeof_SM64State rd) st (sSurfacePool rd (data st))) i))
         [0 ..< nat (sint (gSurfacesAllocated rd (data st)))]"

subsection \<open>\<open>render\<close>: the path of the tracked object\<close>

text \<open>
  \<open>std::distance(begin, std::find(begin, end, current_state))\<close>, with \<open>operator==\<close> of
  \<open>GameState\<close> comparing the frames.
\<close>

fun find_state :: "'p::len GameState list \<Rightarrow> 'p GameState \<Rightarrow> nat" where
  "find_state [] c = 0"
| "find_state (s # ss) c = (if frame s = frame c then 0 else Suc (find_state ss c))"

definition current_index :: "'p::len RenderInfo \<Rightarrow> nat" where
  "current_index info = find_state (path_states info) (current_state info)"

text \<open>\<open>mario_path.back().quarter_steps.push_back(q)\<close> for each \<open>q\<close> of \<open>qs\<close> in turn.\<close>

definition push_quarter_steps :: "ObjectPathNode list \<Rightarrow> QuarterStep list \<Rightarrow> ObjectPathNode list" where
  "push_quarter_steps mario_path qs =
     butlast mario_path @
       [(last mario_path)\<lparr>quarter_steps := quarter_steps (last mario_path) @ qs\<rparr>]"

text \<open>
  One iteration of the loop over \<open>info->path_states\<close>. The state is \<open>mario_path\<close> and the
  lines printed on \<open>stdout\<close> so far.
\<close>

definition path_iteration ::
  "'p::len sm64_reader \<Rightarrow> nat \<Rightarrow> 'p GameState \<Rightarrow> ObjectPathNode list \<times> int list \<Rightarrow>
   ObjectPathNode list \<times> int list" where
  "path_iteration rd ci path_st acc =
     (let mario_path = fst acc; out = snd acc;
          m = from_base (sizeof_SM64State rd) path_st (gMarioState rd (data path_st));
          acc1 =
            (if mario_path \<noteq> [] \<and> length mario_path = ci + 1 then
               (let numSteps = sint (qsteps_numSteps rd (data path_st))
                in (push_quarter_steps mario_path
                      (map (qsteps_steps rd (data path_st)) [0 ..< nat numSteps]),
                    if numSteps > 4 then out @ [numSteps] else out))
             else (mario_path, out))
      in (fst acc1 @ [\<lparr>pos = mario_pos rd m, quarter_steps = []\<rparr>], snd acc1))"

fun mario_path_loop ::
  "'p::len sm64_reader \<Rightarrow> nat \<Rightarrow> 'p GameState list \<Rightarrow> ObjectPathNode list \<times> int list \<Rightarrow>
   ObjectPathNode list \<times> int list" where
  "mario_path_loop rd ci [] acc = acc"
| "mario_path_loop rd ci (path_st # rest) acc =
     mario_path_loop rd ci rest (path_iteration rd ci path_st acc)"

definition render_mario_path :: "'p::len sm64_reader \<Rightarrow> 'p RenderInfo \<Rightarrow> ObjectPathNode list \<times> int list" where
  "render_mario_path rd info = mario_path_loop rd (current_index info) (path_states info) ([], [])"

text \<open>The one entry that \<open>render\<close> pushes onto \<open>scene.object_paths\<close>.\<close>

definition scene_object_path :: "'p::len sm64_reader \<Rightarrow> 'p RenderInfo \<Rightarrow> ObjectPath" where
  "scene_object_path rd info =
     \<lparr>nodes = fst (render_mario_path rd info), root_index = current_index info\<rparr>"

subsection \<open>\<open>interpret_display_list\<close>\<close>

text \<open>
  \<open>loaded_vertices\<close> is a global \<open>std::vector<vec3>\<close> constructed with 32 elements. Its
  elements are the first \<open>vec_size\<close> entries of its buffer \<open>vec_data\<close>, whose length is the
  capacity. \<open>clear()\<close> destroys the elements: the size becomes 0 and the capacity stays.
  \<open>operator[]\<close> is defined for an index below \<open>size()\<close> only; with any other index the
  behaviour is undefined (a checked standard library aborts there), which is \<open>None\<close>
  here and stops the interpretation with \<open>Subscript_beyond_size\<close>.
\<close>

record vec3_vector =
  vec_size :: nat
  vec_data :: "vec3 list"

definition vector_clear :: "vec3_vector \<Rightarrow> vec3_vector" where
  "vector_clear c = c\<lparr>vec_size := 0\<rparr>"

definition vector_set :: "vec3_vector \<Rightarrow> nat \<Rightarrow> vec3 \<Rightarrow> vec3_vector option" where
  "vector_set c i v =
     (if i < vec_size c then Some (c\<lparr>vec_data := (vec_data c)[i := v]\<rparr>) else None)"

definition vector_get :: "vec3_vector \<Rightarrow> nat \<Rightarrow> vec3 option" where
  "vector_get c i = (if i < vec_size c then Some (vec_data c ! i) else None)"

definition zero_vec3 :: vec3 where
  "zero_vec3 = \<lparr>vx = Finite 0 0, vy = Finite 0 0, vz = Finite 0 0\<rparr>"

definition initial_loaded_vertices :: vec3_vector where
  "initial_loaded_vertices = \<lparr>vec_size = 32, vec_data = replicate 32 zero_vec3\<rparr>"

text \<open>
  The state of an interpretation: the vertex cache and the line loops drawn so far, each
  \<open>glBegin(GL_LINE_LOOP)\<close> ... \<open>glEnd()\<close> with its three \<open>glVertex3f\<close> positions.
\<close>

record gfx_state =
  loaded_vertices :: vec3_vector
  line_loops :: "(vec3 \<times> vec3 \<times> vec3) list"

definition dl_cmd :: "u32 \<Rightarrow> u8" where
  "dl_cmd w0 = ucast (drop_bit 24 w0)"

text \<open>Case \<open>0x04\<close>: the decoded count and base slot, and the loop over \<open>i\<close>.\<close>

definition vtx_n :: "u32 \<Rightarrow> u32" where
  "vtx_n w0 = (drop_bit 20 w0 AND 0xF) + 1"

definition vtx_v0 :: "u32 \<Rightarrow> u32" where
  "vtx_v0 w0 = drop_bit 16 w0 AND 0xF"

definition vtx_slot :: "u32 \<Rightarrow> nat \<Rightarrow> nat" where
  "vtx_slot w0 i = unat (vtx_v0 w0 + of_nat i)"

text \<open>
  The stores \<open>loaded_vertices[v0 + i] = ...\<close> for the indices \<open>i\<close> of the list, in order,
  up to the first one that is undefined.
\<close>

fun vertex_stores ::
  "(nat \<Rightarrow> nat) \<Rightarrow> (nat \<Rightarrow> vec3) \<Rightarrow> nat list \<Rightarrow> vec3_vector \<Rightarrow> vec3_vector option" where
  "vertex_stores slot src [] c = Some c"
| "vertex_stores slot src (i # is) c =
     (case vector_set c (slot i) (src i) of
        None \<Rightarrow> None
      | Some c' \<Rightarrow> vertex_stores slot src is c')"

definition gsp_vertex ::
  "'p::len sm64_reader \<Rightarrow> 'p GameState \<Rightarrow> u32 \<Rightarrow> u32 \<Rightarrow> vec3_vector \<Rightarrow> vec3_vector option" where
  "gsp_vertex rd st w0 w1 c =
     (let v = from_base (sizeof_SM64State rd) st (ucast w1)
      in vertex_stores (vtx_slot w0) (vtx_ob rd v) [0 ..< unat (vtx_n w0)] (vector_clear c))"

text \<open>Case \<open>0xBF\<close>: the three slots and the line loop.\<close>

definition tri_slot :: "nat \<Rightarrow> u32 \<Rightarrow> nat" where
  "tri_slot sh w1 = unat ((drop_bit sh w1 AND 0xFF) div 10)"

definition gsp_1triangle :: "u32 \<Rightarrow> gfx_state \<Rightarrow> gfx_state option" where
  "gsp_1triangle w1 s =
     (let v0 = tri_slot 16 w1; v1 = tri_slot 8 w1; v2 = tri_slot 0 w1 in
      case vector_get (loaded_vertices s) v0 of
        None \<Rightarrow> None
      | Some p0 \<Rightarrow>
          (case vector_get (loaded_vertices s) v1 of
             None \<Rightarrow> None
           | Some p1 \<Rightarrow>
               (case vector_get (loaded_vertices s) v2 of
                  None \<Rightarrow> None
                | Some p2 \<Rightarrow> Some (s\<lparr>line_loops := line_loops s @ [(p0, p1, p2)]\<rparr>))))"

text \<open>The slots of \<open>loaded_vertices\<close> that the command \<open>w0 w1\<close> indexes.\<close>

definition accessed_slots :: "u32 \<Rightarrow> u32 \<Rightarrow> nat list" where
  "accessed_slots w0 w1 =
     (if dl_cmd w0 = 0x04 then map (vtx_slot w0) [0 ..< unat (vtx_n w0)]
      else if dl_cmd w0 = 0xBF then [tri_slot 16 w1, tri_slot 8 w1, tri_slot 0 w1]
      else [])"

text \<open>
  The \<open>while (true)\<close> loop with its recursive call. The source may run forever (a branch
  to itself), so the model takes fuel: each loop iteration and each nested call use one
  unit, and \<open>None\<close> is "no answer within the fuel". \<open>dl\<close> is a \<open>u32 *\<close>: \<open>dl[1]\<close> is at
  \<open>dl + 4\<close>, and \<open>dl += 2\<close> and \<open>new_dl - 2\<close> move by 8 bytes. The cases that only
  \<open>break\<close> (\<open>0x03\<close>, \<open>0xB6\<close>, \<open>0xB7\<close>, \<open>0xB9\<close>, \<open>0xBB\<close>, \<open>0xE6\<close> ... \<open>0xFD\<close>, \<open>default\<close>) are
  the last branch.
\<close>

fun interpret_display_list ::
  "nat \<Rightarrow> 'p::len sm64_reader \<Rightarrow> 'p GameState \<Rightarrow> 'p word \<Rightarrow> gfx_state \<Rightarrow>
   (diagnostic + gfx_state) option" where
  "interpret_display_list 0 rd st dl s = None"
| "interpret_display_list (Suc fuel) rd st dl s =
     (let w0 = read_u32 rd dl; w1 = read_u32 rd (dl + 4); cmd = dl_cmd w0 in
      if cmd = 0x01 then Some (Inl GSPMatrix)
      else if cmd = 0x04 then
        (case gsp_vertex rd st w0 w1 (loaded_vertices s) of
           None \<Rightarrow> Some (Inl Subscript_beyond_size)
         | Some c \<Rightarrow> interpret_display_list fuel rd st (dl + 8) (s\<lparr>loaded_vertices := c\<rparr>))
      else if cmd = 0x06 then
        (let new_dl = from_base (sizeof_SM64State rd) st (ucast w1) in
         if w0 = 0x06000000 then
           (case interpret_display_list fuel rd st new_dl s of
              None \<Rightarrow> None
            | Some (Inl d) \<Rightarrow> Some (Inl d)
            | Some (Inr s') \<Rightarrow> interpret_display_list fuel rd st (dl + 8) s')
         else if w0 = 0x06010000 then
           interpret_display_list fuel rd st ((new_dl - 8) + 8) s
         else Some (Inl (GSPDisplayList w0)))
      else if cmd = 0xB8 then Some (Inr s)
      else if cmd = 0xBF then
        (case gsp_1triangle w1 s of
           None \<Rightarrow> Some (Inl Subscript_beyond_size)
         | Some s' \<Rightarrow> interpret_display_list fuel rd st (dl + 8) s')
      else interpret_display_list fuel rd st (dl + 8) s)"

subsection \<open>Closed form of the path loop\<close>

text \<open>
  What the loop over \<open>path_states\<close> leaves in node \<open>i\<close> of \<open>mario_path\<close> and on \<open>stdout\<close>,
  written without the loop; \<open>mario_path_loop_nodes\<close> below proves that the loop computes
  exactly this.
\<close>

definition path_node_closed ::
  "'p::len sm64_reader \<Rightarrow> nat \<Rightarrow> 'p GameState list \<Rightarrow> nat \<Rightarrow> ObjectPathNode" where
  "path_node_closed rd ci sts i =
     \<lparr>pos = mario_pos rd
              (from_base (sizeof_SM64State rd) (sts ! i) (gMarioState rd (data (sts ! i)))),
      quarter_steps =
        (if i = ci \<and> ci + 1 < length sts then
           map (qsteps_steps rd (data (sts ! (ci + 1))))
             [0 ..< nat (sint (qsteps_numSteps rd (data (sts ! (ci + 1)))))]
         else [])\<rparr>"

definition path_out_closed :: "'p::len sm64_reader \<Rightarrow> nat \<Rightarrow> 'p GameState list \<Rightarrow> int list" where
  "path_out_closed rd ci sts =
     (if ci + 1 < length sts \<and> sint (qsteps_numSteps rd (data (sts ! (ci + 1)))) > 4
      then [sint (qsteps_numSteps rd (data (sts ! (ci + 1))))] else [])"

subsection \<open>A concrete snapshot and display list\<close>

text \<open>
  A 32-bit memory for the concrete instances below. Three recorded frames 10, 11 and 12
  share the reference image at \<open>0x9000\<close> (of size \<open>0x1000\<close>) and have their data images at
  \<open>0x1000\<close>, \<open>0x2000\<close> and \<open>0x3000\<close>; the fine-step log of the last has five entries, the
  others one. Positions carry the address they were read from. The display list at
  \<open>0x100\<close> draws a triangle, calls the list at \<open>0x200\<close> and ends; the list at \<open>0x200\<close>
  draws a triangle and branches to \<open>0x300\<close>, which draws a triangle and ends. \<open>0x400\<close>
  holds a matrix command, \<open>0x500\<close> a display-list command with an unsupported encoding,
  and \<open>0x600\<close> the list that loads three vertices into the slots 0 to 2, draws the
  triangle of these slots and ends.
\<close>

definition example_words :: "(32 word \<times> u32) list" where
  "example_words =
     [(0x100, 0xB6000000), (0x104, 0x00000000),
      (0x108, 0xBF000000), (0x10C, 0x00000A14),
      (0x110, 0x06000000), (0x114, 0x00000200),
      (0x118, 0xB8000000), (0x11C, 0x00000000),
      (0x200, 0xBF000000), (0x204, 0x00000A14),
      (0x208, 0x06010000), (0x20C, 0x00000300),
      (0x210, 0x01000000), (0x214, 0x00000000),
      (0x300, 0xBF000000), (0x304, 0x001E2800),
      (0x308, 0xB8000000), (0x30C, 0x00000000),
      (0x400, 0x01234567), (0x404, 0xDEADBEEF),
      (0x500, 0x06020000), (0x504, 0x00000200),
      (0x600, 0x04200000), (0x604, 0x00004000),
      (0x608, 0xBF000000), (0x60C, 0x00000A14),
      (0x610, 0xB8000000), (0x614, 0x00000000)]"

definition example_vec3 :: "32 word \<Rightarrow> nat \<Rightarrow> vec3" where
  "example_vec3 a i = \<lparr>vx = Finite (uint a) 149, vy = Finite (int i) 149, vz = Finite 0 0\<rparr>"

definition example_reader :: "32 sm64_reader" where
  "example_reader =
     \<lparr>sizeof_SM64State = 0x1000,
      gSurfacesAllocated = (\<lambda>a. 0),
      sSurfacePool = (\<lambda>a. 0x9800),
      surface_at = (\<lambda>p i. \<lparr>vertex1 = example_vec3 p i, vertex2 = example_vec3 p i,
                              vertex3 = example_vec3 p i, raw_normal = example_vec3 p i\<rparr>),
      gMarioState = (\<lambda>a. 0x9010),
      mario_pos = (\<lambda>m. example_vec3 m 0),
      qsteps_numSteps = (\<lambda>a. if a = 0x3000 then 5 else 1),
      qsteps_steps = (\<lambda>a i. \<lparr>intended_pos = example_vec3 a i, result_pos = example_vec3 a (i + 1)\<rparr>),
      read_u32 = (\<lambda>a. case map_of example_words a of Some w \<Rightarrow> w | None \<Rightarrow> 0),
      vtx_ob = example_vec3\<rparr>"

definition example_state :: "nat \<Rightarrow> 32 GameState" where
  "example_state i = \<lparr>frame = 10 + of_nat i, base = 0x9000, data = 0x1000 * (1 + of_nat i)\<rparr>"

definition example_info :: "32 RenderInfo" where
  "example_info =
     \<lparr>current_state = example_state 1,
      path_states = [example_state 0, example_state 1, example_state 2]\<rparr>"

text \<open>A surface record with the given normal.\<close>

definition example_surface :: "f32 \<Rightarrow> f32 \<Rightarrow> f32 \<Rightarrow> Surface_raw" where
  "example_surface nx ny nz =
     \<lparr>vertex1 = zero_vec3, vertex2 = zero_vec3, vertex3 = zero_vec3,
      raw_normal = \<lparr>vx = nx, vy = ny, vz = nz\<rparr>\<rparr>"

definition example_gfx :: gfx_state where
  "example_gfx = \<lparr>loaded_vertices = initial_loaded_vertices, line_loops = []\<rparr>"

section \<open>Address rebaser\<close>

subsection \<open>Segment translation\<close>

lemma seg_hits_from_step:
  "i < 32 \<Longrightarrow> seg_hits_from tbl addr i =
     (if seg_contains (tbl i) addr then i # seg_hits_from tbl addr (Suc i)
      else seg_hits_from tbl addr (Suc i))"
  by (simp add: seg_hits_from_def upt_conv_Cons)

lemma seg_hits_from_end: "32 \<le> i \<Longrightarrow> seg_hits_from tbl addr i = []"
  by (simp add: seg_hits_from_def)

lemma set_seg_hits: "set (seg_hits tbl addr) = {j. j < 32 \<and> seg_contains (tbl j) addr}"
  by (auto simp: seg_hits_def seg_hits_from_def)

lemma seg_scan_done:
  "32 \<le> i \<Longrightarrow> seg_scan tbl addr i r = Inr (if r = 0 then addr else r)"
  by (subst seg_scan.simps) simp

lemma seg_scan_miss:
  "i < 32 \<Longrightarrow> \<not> seg_contains (tbl i) addr \<Longrightarrow>
   seg_scan tbl addr i r = seg_scan tbl addr (Suc i) r"
  by (subst seg_scan.simps) (auto simp: seg_contains_def)

lemma seg_scan_first_hit:
  "i < 32 \<Longrightarrow> seg_contains (tbl i) addr \<Longrightarrow>
   seg_scan tbl addr i 0 = seg_scan tbl addr (Suc i) (seg_translate (tbl i) addr)"
  by (subst seg_scan.simps) (auto simp: seg_contains_def seg_translate_def)

lemma seg_scan_second_hit:
  "i < 32 \<Longrightarrow> seg_contains (tbl i) addr \<Longrightarrow> r \<noteq> 0 \<Longrightarrow>
   seg_scan tbl addr i r = Inl Two_segments"
  by (subst seg_scan.simps) (auto simp: seg_contains_def)

text \<open>Once a non-null result is pending, any further containing descriptor aborts.\<close>

lemma seg_scan_pending:
  "r \<noteq> 0 \<Longrightarrow>
   seg_scan tbl addr i r = (if seg_hits_from tbl addr i = [] then Inr r else Inl Two_segments)"
proof (induction "32 - i" arbitrary: i)
  case 0
  then show ?case by (simp add: seg_scan_done seg_hits_from_end)
next
  case (Suc n)
  then have lt: "i < 32" and n: "n = 32 - Suc i" by simp_all
  show ?case
  proof (cases "seg_contains (tbl i) addr")
    case True
    with lt Suc.prems show ?thesis
      by (simp add: seg_scan_second_hit seg_hits_from_step)
  next
    case False
    with lt Suc.hyps(1)[OF n Suc.prems] show ?thesis
      by (simp add: seg_scan_miss seg_hits_from_step)
  qed
qed

lemma seg_scan_fresh:
  "\<forall>j \<in> set (seg_hits_from tbl addr i). seg_translate (tbl j) addr \<noteq> 0 \<Longrightarrow>
   seg_scan tbl addr i 0 =
     (case seg_hits_from tbl addr i of
        [] \<Rightarrow> Inr addr
      | [j] \<Rightarrow> Inr (seg_translate (tbl j) addr)
      | _ \<Rightarrow> Inl Two_segments)"
proof (induction "32 - i" arbitrary: i)
  case 0
  then show ?case by (simp add: seg_scan_done seg_hits_from_end)
next
  case (Suc n)
  then have lt: "i < 32" and n: "n = 32 - Suc i" by simp_all
  show ?case
  proof (cases "seg_contains (tbl i) addr")
    case True
    with lt have h: "seg_hits_from tbl addr i = i # seg_hits_from tbl addr (Suc i)"
      by (simp add: seg_hits_from_step)
    with Suc.prems have nz: "seg_translate (tbl i) addr \<noteq> 0" by simp
    show ?thesis
      using lt True seg_scan_pending[OF nz, of tbl addr "Suc i"]
      by (simp add: seg_scan_first_hit h split: list.splits)
  next
    case False
    with lt have h: "seg_hits_from tbl addr i = seg_hits_from tbl addr (Suc i)"
      by (simp add: seg_hits_from_step)
    with lt False Suc.hyps(1)[OF n] Suc.prems show ?thesis
      by (simp add: seg_scan_miss)
  qed
qed

text \<open>
  Where no containing descriptor translates the address to the null pointer, the scan does
  what the specification says: the address itself for no match, the translated address for
  one match, and the abort for two or more.
\<close>

lemma segmented_to_virtual_non_null:
  assumes "\<forall>j \<in> set (seg_hits tbl addr). addr - srcStart (tbl j) + dstStart (tbl j) \<noteq> 0"
  shows "(seg_hits tbl addr = [] \<longrightarrow> segmented_to_virtual tbl addr = Inr addr) \<and>
         (\<forall>j. seg_hits tbl addr = [j] \<longrightarrow>
              segmented_to_virtual tbl addr = Inr (addr - srcStart (tbl j) + dstStart (tbl j))) \<and>
         (2 \<le> length (seg_hits tbl addr) \<longrightarrow> segmented_to_virtual tbl addr = Inl Two_segments)"
proof -
  from assms have nz: "\<forall>j \<in> set (seg_hits_from tbl addr 0). seg_translate (tbl j) addr \<noteq> 0"
    by (simp add: seg_hits_def seg_translate_def)
  show ?thesis
    unfolding segmented_to_virtual_def seg_hits_def seg_scan_fresh[OF nz]
    by (auto simp: seg_translate_def split: list.splits)
qed

text \<open>
  Claim C1. The claim: for every segment table and address, \<open>segmented_to_virtual\<close> returns
  the address unchanged for no containing descriptor, the translated address for exactly
  one, and aborts for two or more. The code keeps the pending result in \<open>result\<close> and reads
  the null pointer as "nothing found yet". With two descriptors that both contain
  \<open>0x1000\<close>, the first of which translates it to the null pointer, the scan does not
  abort: it returns the translation of the second descriptor. With that first descriptor
  alone, it returns the address itself and not the translation.
\<close>

theorem segmented_to_virtual_null_pending:
  "seg_hits (zero_segment_table
       (0 := \<lparr>srcStart = 0x1000, srcEnd = 0x2000, dstStart = 0\<rparr>,
        1 := \<lparr>srcStart = 0x1000, srcEnd = 0x3000, dstStart = 0x8000\<rparr>)) (0x1000 :: 32 word) = [0, 1] \<and>
   segmented_to_virtual (zero_segment_table
       (0 := \<lparr>srcStart = 0x1000, srcEnd = 0x2000, dstStart = 0\<rparr>,
        1 := \<lparr>srcStart = 0x1000, srcEnd = 0x3000, dstStart = 0x8000\<rparr>)) (0x1000 :: 32 word) = Inr 0x8000 \<and>
   seg_hits (zero_segment_table
       (0 := \<lparr>srcStart = 0x1000, srcEnd = 0x2000, dstStart = 0xFFFFFFFC\<rparr>)) (0x1004 :: 32 word) = [0] \<and>
   segmented_to_virtual (zero_segment_table
       (0 := \<lparr>srcStart = 0x1000, srcEnd = 0x2000, dstStart = 0xFFFFFFFC\<rparr>)) (0x1004 :: 32 word) = Inr 0x1004"
  by (simp add: seg_hits_def seg_hits_from_def seg_contains_def upt_rec
      segmented_to_virtual_def seg_scan.simps zero_segment_table_def)

subsection \<open>Image rebasing\<close>

lemma image_end_unat:
  fixes b :: "'p::len word"
  assumes "unat b + sz < 2 ^ LENGTH('p)"
  shows "unat (b + of_nat sz) = unat b + sz"
proof -
  from assms have "sz < 2 ^ LENGTH('p)" by simp
  then have "unat (of_nat sz :: 'p word) = sz" by (simp add: unat_of_nat)
  with assms show ?thesis by (simp add: unat_add_lem[THEN iffD1])
qed

text \<open>
  Claim C2. For every pointer \<open>v\<close> and every snapshot with reference image \<open>base\<close> and
  target image \<open>data\<close>: a \<open>v\<close> with \<open>base \<le> v < base + sizeof(image)\<close> is rebased to
  \<open>v - base + data\<close>, so that the result minus \<open>data\<close> is \<open>v - base\<close>; every other \<open>v\<close> is
  returned unchanged. \<open>from_base\<close> returns an address and nothing else, so there is no
  error path. The bounds are the pointer comparisons of the code; for an image that lies
  within the address space they are the comparisons of the addresses as numbers.
\<close>

theorem from_base_rebases:
  fixes st :: "'p::len GameState" and v :: "'p word"
  shows "(base st \<le> v \<and> v < base st + of_nat sz \<longrightarrow>
            from_base sz st v = v - base st + data st \<and>
            from_base sz st v - data st = v - base st) \<and>
         (\<not> (base st \<le> v \<and> v < base st + of_nat sz) \<longrightarrow> from_base sz st v = v) \<and>
         (unat (base st) + sz < 2 ^ LENGTH('p) \<longrightarrow>
            (base st \<le> v \<and> v < base st + of_nat sz) =
            (unat v \<in> {unat (base st) ..< unat (base st) + sz}))"
  by (auto simp: from_base_def image_end_unat word_le_nat_alt word_less_nat_alt)

theorem from_base_rebases_witness:
  "from_base 4096 \<lparr>frame = 7, base = 0x10000, data = 0x50000\<rparr> (0x10010 :: 32 word) = 0x50010 \<and>
   from_base 4096 \<lparr>frame = 7, base = 0x10000, data = 0x50000\<rparr> (0x11000 :: 32 word) = 0x11000"
  using from_base_rebases[of "\<lparr>frame = 7, base = 0x10000, data = 0x50000\<rparr>" "0x10010 :: 32 word" 4096]
        from_base_rebases[of "\<lparr>frame = 7, base = 0x10000, data = 0x50000\<rparr>" "0x11000 :: 32 word" 4096]
  by simp

section \<open>Scene builder\<close>

subsection \<open>Surface classification\<close>

lemma f32_val_minus: "f32_val (- m) k = - f32_val m k"
  by (simp add: f32_val_def)

lemma f32_val_less_pow:
  assumes m: "\<bar>m\<bar> < 2 ^ 24" and k: "k \<le> j"
  shows "f32_val m k < 2 ^ (24 + j) / 2 ^ 149"
proof -
  have p: "(2::real) ^ k \<le> 2 ^ j" using k by (simp add: power_increasing)
  have "real_of_int m * 2 ^ k < 2 ^ 24 * 2 ^ j"
  proof (cases "m \<le> 0")
    case True
    then have "real_of_int m * 2 ^ k \<le> 0" by (simp add: mult_le_0_iff)
    also have "(0::real) < 2 ^ 24 * 2 ^ j" by simp
    finally show ?thesis .
  next
    case False
    from m have "m < 2 ^ 24" by simp
    then have "real_of_int m < real_of_int (2 ^ 24)" by (simp only: of_int_less_iff)
    then have lt: "real_of_int m < 2 ^ 24" by simp
    have "real_of_int m * 2 ^ k \<le> real_of_int m * 2 ^ j"
      using False p by (simp add: mult_left_mono)
    also have "\<dots> < 2 ^ 24 * 2 ^ j" using lt by simp
    finally show ?thesis .
  qed
  then show ?thesis by (simp add: f32_val_def power_add divide_strict_right_mono)
qed

lemma f32_val_grid:
  assumes "j \<le> k" and "j \<le> 149"
  shows "f32_val m k = real_of_int (m * 2 ^ (k - j)) / 2 ^ (149 - j)"
proof -
  have k: "(2::real) ^ k = 2 ^ (k - j) * 2 ^ j"
    using assms(1) by (simp flip: power_add)
  have d: "(2::real) ^ 149 = 2 ^ (149 - j) * 2 ^ j"
    using assms(2) by (simp flip: power_add)
  show ?thesis
    unfolding f32_val_def k d by simp
qed

lemma grid_0_01:
  fixes N :: int
  assumes "real_of_int N / 2 ^ 30 > 1 / 100"
  shows "real_of_int N / 2 ^ 30 > double_0_01"
proof -
  from assms have "real_of_int (2 ^ 30) < real_of_int (N * 100)" by (simp add: field_simps)
  then have "(2 ^ 30 :: int) < N * 100" by (simp only: of_int_less_iff)
  then have "10737419 \<le> N" by simp
  then have "real_of_int 10737419 \<le> real_of_int N" by (simp only: of_int_le_iff)
  then have "(10737419 :: real) / 2 ^ 30 \<le> real_of_int N / 2 ^ 30"
    by (simp add: divide_right_mono)
  moreover have "double_0_01 < (10737419 :: real) / 2 ^ 30"
    by (simp add: double_0_01_def)
  ultimately show ?thesis by simp
qed

lemma grid_0_707:
  fixes N :: int
  assumes "real_of_int N / 2 ^ 24 > double_0_707"
  shows "real_of_int N / 2 ^ 24 > 707 / 1000"
proof -
  from assms have "real_of_int 6368089873101881 < real_of_int (N * 2 ^ 29)"
    by (simp add: double_0_707_def field_simps)
  then have "(6368089873101881 :: int) < N * 2 ^ 29" by (simp only: of_int_less_iff)
  then have "11861492 \<le> N" by simp
  then have "real_of_int 11861492 \<le> real_of_int N" by (simp only: of_int_le_iff)
  then have "(11861492 :: real) / 2 ^ 24 \<le> real_of_int N / 2 ^ 24"
    by (simp add: divide_right_mono)
  moreover have "(707 :: real) / 1000 < 11861492 / 2 ^ 24" by simp
  ultimately show ?thesis by simp
qed

lemma f32_val_gt_0_01:
  assumes ok: "\<bar>m\<bar> < 2 ^ 24"
  shows "f32_val m k > double_0_01 \<longleftrightarrow> f32_val m k > 1 / 100"
proof
  assume "f32_val m k > double_0_01"
  moreover have "(1::real) / 100 < double_0_01" by (simp add: double_0_01_def)
  ultimately show "f32_val m k > 1 / 100" by simp
next
  assume gt: "f32_val m k > 1 / 100"
  have "119 \<le> k"
  proof (rule ccontr)
    assume "\<not> 119 \<le> k"
    then have "k \<le> 118" by simp
    from f32_val_less_pow[OF ok this] have "f32_val m k < 2 ^ (24 + 118) / 2 ^ 149" .
    also have "\<dots> < (1::real) / 100" by simp
    finally show False using gt by simp
  qed
  then have "f32_val m k = real_of_int (m * 2 ^ (k - 119)) / 2 ^ (149 - 119)"
    by (intro f32_val_grid) simp_all
  then have g: "f32_val m k = real_of_int (m * 2 ^ (k - 119)) / 2 ^ 30" by simp
  show "f32_val m k > double_0_01"
    using gt unfolding g by (rule grid_0_01)
qed

lemma f32_val_gt_0_707:
  assumes ok: "\<bar>m\<bar> < 2 ^ 24"
  shows "f32_val m k > double_0_707 \<longleftrightarrow> f32_val m k > 707 / 1000"
proof
  assume gt: "f32_val m k > double_0_707"
  have half: "(1::real) / 2 < double_0_707" by (simp add: double_0_707_def)
  have "125 \<le> k"
  proof (rule ccontr)
    assume "\<not> 125 \<le> k"
    then have "k \<le> 124" by simp
    from f32_val_less_pow[OF ok this] have "f32_val m k < 2 ^ (24 + 124) / 2 ^ 149" .
    also have "\<dots> = (1::real) / 2" by simp
    finally show False using gt half by simp
  qed
  then have "f32_val m k = real_of_int (m * 2 ^ (k - 125)) / 2 ^ (149 - 125)"
    by (intro f32_val_grid) simp_all
  then have g: "f32_val m k = real_of_int (m * 2 ^ (k - 125)) / 2 ^ 24" by simp
  show "f32_val m k > 707 / 1000"
    using gt unfolding g by (rule grid_0_707)
next
  assume "f32_val m k > 707 / 1000"
  moreover have "double_0_707 < (707::real) / 1000" by (simp add: double_0_707_def)
  ultimately show "f32_val m k > double_0_707" by simp
qed

lemma f32_gt_0_01: "f32_ok x \<Longrightarrow> f32_gt x double_0_01 \<longleftrightarrow> f32_gt x (1 / 100)"
  by (cases x) (simp_all add: f32_val_gt_0_01)

lemma f32_gt_0_707: "f32_ok x \<Longrightarrow> f32_gt x double_0_707 \<longleftrightarrow> f32_gt x (707 / 1000)"
  by (cases x) (simp_all add: f32_val_gt_0_707)

lemma f32_val_lt_neg: "f32_val m k < - c \<longleftrightarrow> f32_val (- m) k > c"
  unfolding f32_val_minus by linarith

lemma f32_lt_neg_0_01: "f32_ok x \<Longrightarrow> f32_lt x (- double_0_01) \<longleftrightarrow> f32_lt x (- (1 / 100))"
proof (cases x)
  case (Finite m k)
  assume "f32_ok x"
  with Finite have "\<bar>- m\<bar> < 2 ^ 24" by simp
  from f32_val_gt_0_01[OF this, of k] Finite show ?thesis
    by (simp only: f32_lt.simps f32_val_lt_neg)
qed simp_all

lemma f32_lt_neg_0_707: "f32_ok x \<Longrightarrow> f32_lt x (- double_0_707) \<longleftrightarrow> f32_lt x (- (707 / 1000))"
proof (cases x)
  case (Finite m k)
  assume "f32_ok x"
  with Finite have "\<bar>- m\<bar> < 2 ^ 24" by simp
  from f32_val_gt_0_707[OF this, of k] Finite show ?thesis
    by (simp only: f32_lt.simps f32_val_lt_neg)
qed simp_all

text \<open>
  Claim C6. For every surface record whose normal holds binary32 values (finite, infinite
  or NaN), the kind is decided by the thresholds as the specification writes them: FLOOR
  for \<open>normal.y > 0.01\<close>, otherwise CEILING for \<open>normal.y < -0.01\<close>, otherwise WALL_X_PROJ
  for \<open>\<bar>normal.x\<bar> > 0.707\<close>, otherwise WALL_Z_PROJ. The code compares with the \<open>double\<close>
  constants nearest to \<open>0.01\<close> and \<open>0.707\<close>; no binary32 value lies between a constant and
  its decimal, so the two agree. The comparisons are strict: a \<open>normal.y\<close> of at most
  \<open>0.01\<close> is never FLOOR.
\<close>

theorem surface_classification:
  assumes "f32_ok (vx (raw_normal surface))" and "f32_ok (vy (raw_normal surface))"
  shows "surface_type (scene_surface surface) =
           (if f32_gt (vy (raw_normal surface)) (1 / 100) then FLOOR
            else if f32_lt (vy (raw_normal surface)) (- (1 / 100)) then CEILING
            else if f32_lt (vx (raw_normal surface)) (- (707 / 1000)) \<or>
                    f32_gt (vx (raw_normal surface)) (707 / 1000) then WALL_X_PROJ
            else WALL_Z_PROJ) \<and>
         (\<forall>m k. vy (raw_normal surface) = Finite m k \<and> f32_val m k \<le> 1 / 100 \<longrightarrow>
            surface_type (scene_surface surface) \<noteq> FLOOR) \<and>
         (\<forall>m k. vx (raw_normal surface) = Finite m k \<longrightarrow>
            (f32_lt (vx (raw_normal surface)) (- (707 / 1000)) \<or>
             f32_gt (vx (raw_normal surface)) (707 / 1000)) = (\<bar>f32_val m k\<bar> > 707 / 1000))"
proof -
  have main: "surface_type (scene_surface surface) =
           (if f32_gt (vy (raw_normal surface)) (1 / 100) then FLOOR
            else if f32_lt (vy (raw_normal surface)) (- (1 / 100)) then CEILING
            else if f32_lt (vx (raw_normal surface)) (- (707 / 1000)) \<or>
                    f32_gt (vx (raw_normal surface)) (707 / 1000) then WALL_X_PROJ
            else WALL_Z_PROJ)"
    unfolding scene_surface_def classify_normal_def
    by (simp only: Surface.simps f32_gt_0_01[OF assms(2)] f32_lt_neg_0_01[OF assms(2)]
        f32_gt_0_707[OF assms(1)] f32_lt_neg_0_707[OF assms(1)])
  have strict: "\<forall>m k. vy (raw_normal surface) = Finite m k \<and> f32_val m k \<le> 1 / 100 \<longrightarrow>
            surface_type (scene_surface surface) \<noteq> FLOOR"
    unfolding main by auto
  have absx: "\<forall>m k. vx (raw_normal surface) = Finite m k \<longrightarrow>
            (f32_lt (vx (raw_normal surface)) (- (707 / 1000)) \<or>
             f32_gt (vx (raw_normal surface)) (707 / 1000)) = (\<bar>f32_val m k\<bar> > 707 / 1000)"
    by auto
  from main strict absx show ?thesis by blast
qed

theorem surface_classification_witness:
  "surface_type (scene_surface (example_surface (Finite 0 0) (Finite 1 149) (Finite 0 0))) = FLOOR \<and>
   surface_type (scene_surface (example_surface (Finite 0 0) (Finite (- 1) 149) (Finite 0 0))) = CEILING \<and>
   surface_type (scene_surface (example_surface (Finite 1 149) (Finite 0 0) (Finite 0 0))) = WALL_X_PROJ \<and>
   surface_type (scene_surface (example_surface (Finite 0 0) (Finite 0 0) (Finite 1 149))) = WALL_Z_PROJ \<and>
   surface_type (scene_surface (example_surface (Finite 10737418 118) (Finite 16760439 125) (Finite 0 0))) = FLOOR \<and>
   surface_type (scene_surface (example_surface (Finite 0 0) (Finite 10737418 119) (Finite 0 0))) \<noteq> FLOOR \<and>
   surface_type (scene_surface (example_surface NaN NaN NaN)) = WALL_Z_PROJ"
  using
    surface_classification[of "example_surface (Finite 0 0) (Finite 1 149) (Finite 0 0)"]
    surface_classification[of "example_surface (Finite 0 0) (Finite (- 1) 149) (Finite 0 0)"]
    surface_classification[of "example_surface (Finite 1 149) (Finite 0 0) (Finite 0 0)"]
    surface_classification[of "example_surface (Finite 0 0) (Finite 0 0) (Finite 1 149)"]
    surface_classification[of "example_surface (Finite 10737418 118) (Finite 16760439 125) (Finite 0 0)"]
    surface_classification[of "example_surface (Finite 0 0) (Finite 10737418 119) (Finite 0 0)"]
    surface_classification[of "example_surface NaN NaN NaN"]
  by (simp add: example_surface_def f32_val_def)

subsection \<open>The current index\<close>

lemma find_state_le: "find_state ss c \<le> length ss"
  by (induction ss) auto

lemma find_state_hit:
  "find_state ss c < length ss \<Longrightarrow> frame (ss ! find_state ss c) = frame c"
  by (induction ss) (auto split: if_splits)

lemma find_state_before:
  "j < find_state ss c \<Longrightarrow> frame (ss ! j) \<noteq> frame c"
proof (induction ss arbitrary: j)
  case Nil
  then show ?case by simp
next
  case (Cons s ss)
  then show ?case by (cases j) (auto split: if_splits)
qed

lemma find_state_absent:
  "find_state ss c = length ss \<longleftrightarrow> (\<forall>s \<in> set ss. frame s \<noteq> frame c)"
proof (induction ss)
  case Nil
  then show ?case by simp
next
  case (Cons s ss)
  then show ?case by auto
qed

lemma find_state_first:
  assumes "i < length ss" and "frame (ss ! i) = frame c"
    and "\<forall>j < i. frame (ss ! j) \<noteq> frame c"
  shows "find_state ss c = i"
proof -
  have "\<not> i < find_state ss c"
    using find_state_before[of i ss c] assms(2) by blast
  moreover have "\<not> find_state ss c < i"
  proof
    assume lt: "find_state ss c < i"
    with assms(1) have "find_state ss c < length ss" by simp
    then have "frame (ss ! find_state ss c) = frame c" by (rule find_state_hit)
    with assms(3) lt show False by blast
  qed
  ultimately show ?thesis by simp
qed

text \<open>
  Claim C7. \<open>current_index\<close> is the position in the history of the first snapshot whose
  frame is the frame of the current snapshot; where no snapshot of the history has that
  frame it is the length of the history. For the history \<open>[f0, f1, f2]\<close> and the current
  frame \<open>f1\<close> (with \<open>f0\<close> a different frame) it is 1.
\<close>

theorem current_index_position:
  "(\<forall>i < length (path_states info).
      frame (path_states info ! i) = frame (current_state info) \<and>
      (\<forall>j < i. frame (path_states info ! j) \<noteq> frame (current_state info)) \<longrightarrow>
      current_index info = i) \<and>
   ((\<forall>s \<in> set (path_states info). frame s \<noteq> frame (current_state info)) \<longrightarrow>
      current_index info = length (path_states info)) \<and>
   (\<forall>s0 s1 s2. path_states info = [s0, s1, s2] \<and> frame s1 = frame (current_state info) \<and>
      frame s0 \<noteq> frame s1 \<longrightarrow> current_index info = 1)"
  unfolding current_index_def
  by (auto simp: find_state_first find_state_absent[THEN iffD2])

theorem current_index_position_witness:
  "current_index example_info = 1 \<and>
   current_index (example_info\<lparr>current_state := example_state 7\<rparr>) = 3"
  using current_index_position[of example_info]
    current_index_position[of "example_info\<lparr>current_state := example_state 7\<rparr>"]
  by (simp add: example_info_def example_state_def)

subsection \<open>The path and its quarter steps\<close>

lemma mario_path_loop_foldl:
  "mario_path_loop rd ci sts acc = foldl (\<lambda>a st. path_iteration rd ci st a) acc sts"
  by (induction sts arbitrary: acc) simp_all

lemma mario_path_loop_snoc:
  "mario_path_loop rd ci (sts @ [st]) acc = path_iteration rd ci st (mario_path_loop rd ci sts acc)"
  by (simp add: mario_path_loop_foldl)

lemma path_iteration_length:
  "length (fst (path_iteration rd ci st acc)) = Suc (length (fst acc))"
  by (simp add: path_iteration_def Let_def push_quarter_steps_def)

lemma path_node_closed_snoc:
  "i < length sts \<Longrightarrow> \<not> (i = ci \<and> length sts = ci + 1) \<Longrightarrow>
   path_node_closed rd ci (sts @ [st]) i = path_node_closed rd ci sts i"
  by (auto simp: path_node_closed_def nth_append)

lemma path_node_closed_last:
  "path_node_closed rd ci (sts @ [st]) (length sts) =
     \<lparr>pos = mario_pos rd (from_base (sizeof_SM64State rd) st (gMarioState rd (data st))),
      quarter_steps = []\<rparr>"
  by (auto simp: path_node_closed_def)

lemma mario_path_loop_nodes:
  "mario_path_loop rd ci sts ([], []) =
     (map (path_node_closed rd ci sts) [0 ..< length sts], path_out_closed rd ci sts)"
proof (induction sts rule: rev_induct)
  case Nil
  then show ?case by (simp add: path_out_closed_def)
next
  case (snoc st sts)
  let ?n = "length sts"
  show ?case
  proof (cases "?n = ci + 1")
    case False
    then have a: "map (path_node_closed rd ci (sts @ [st])) [0 ..< ?n] = map (path_node_closed rd ci sts) [0 ..< ?n]"
      by (simp add: path_node_closed_snoc)
    have b: "path_out_closed rd ci (sts @ [st]) = path_out_closed rd ci sts"
      using False by (auto simp: path_out_closed_def nth_append)
    note c = path_node_closed_last[of rd ci sts st]
    show ?thesis
      using False by (simp add: mario_path_loop_snoc snoc.IH path_iteration_def Let_def a b c)
  next
    case True
    then have ci: "ci < ?n" "?n = Suc ci" by simp_all
    have upt: "[0 ..< ?n] = [0 ..< ci] @ [ci]" using ci by simp
    have a: "map (path_node_closed rd ci (sts @ [st])) [0 ..< ci] = map (path_node_closed rd ci sts) [0 ..< ci]"
      using ci by (simp add: path_node_closed_snoc)
    have old: "path_node_closed rd ci sts ci =
        \<lparr>pos = mario_pos rd (from_base (sizeof_SM64State rd) (sts ! ci) (gMarioState rd (data (sts ! ci)))), quarter_steps = []\<rparr>"
      using ci by (simp add: path_node_closed_def)
    have new: "path_node_closed rd ci (sts @ [st]) ci =
        \<lparr>pos = mario_pos rd (from_base (sizeof_SM64State rd) (sts ! ci) (gMarioState rd (data (sts ! ci)))),
         quarter_steps = map (qsteps_steps rd (data st)) [0 ..< nat (sint (qsteps_numSteps rd (data st)))]\<rparr>"
      using ci by (simp add: path_node_closed_def nth_append)
    have c: "path_node_closed rd ci (sts @ [st]) (Suc ci) =
        \<lparr>pos = mario_pos rd (from_base (sizeof_SM64State rd) st (gMarioState rd (data st))), quarter_steps = []\<rparr>"
      using path_node_closed_last[of rd ci sts st] ci by simp
    have oo: "path_out_closed rd ci sts = []" using ci by (simp add: path_out_closed_def)
    have on: "path_out_closed rd ci (sts @ [st]) =
        (if sint (qsteps_numSteps rd (data st)) > 4 then [sint (qsteps_numSteps rd (data st))] else [])"
      using ci by (simp add: path_out_closed_def nth_append)
    have prev: "map (path_node_closed rd ci sts) [0 ..< length sts] =
        map (path_node_closed rd ci sts) [0 ..< ci] @ [path_node_closed rd ci sts ci]"
      using ci by simp
    have goal: "map (path_node_closed rd ci (sts @ [st])) [0 ..< length (sts @ [st])] =
        map (path_node_closed rd ci sts) [0 ..< ci] @
          [path_node_closed rd ci (sts @ [st]) ci, path_node_closed rd ci (sts @ [st]) (Suc ci)]"
      using ci a by simp
    have "path_iteration rd ci st (map (path_node_closed rd ci sts) [0 ..< length sts], path_out_closed rd ci sts) =
        (map (path_node_closed rd ci (sts @ [st])) [0 ..< length (sts @ [st])], path_out_closed rd ci (sts @ [st]))"
      unfolding goal prev
      using ci(2) by (simp add: path_iteration_def Let_def push_quarter_steps_def old new c oo on)
    then show ?thesis
      by (simp only: mario_path_loop_snoc snoc.IH)
  qed
qed

lemma filter_at_most_one:
  "\<forall>i < length xs. i \<noteq> c \<longrightarrow> \<not> P (xs ! i) \<Longrightarrow> length (filter P xs) \<le> 1"
proof (induction xs arbitrary: c)
  case Nil
  then show ?case by simp
next
  case (Cons x xs)
  show ?case
  proof (cases c)
    case 0
    with Cons.prems have "\<forall>i < length xs. \<not> P (xs ! i)" by auto
    then have "filter P xs = []" by (auto simp: filter_empty_conv in_set_conv_nth)
    then show ?thesis by simp
  next
    case (Suc c')
    with Cons.prems have "\<not> P x" and "\<forall>i < length xs. i \<noteq> c' \<longrightarrow> \<not> P (xs ! i)" by auto
    with Cons.IH[of c'] show ?thesis by simp
  qed
qed

text \<open>
  Claim C5, as stated: when the node of the current frame is appended, the fine-step log of
  the snapshot before the current one is copied into the node before the current node. In
  the concrete history of the frames 10, 11 and 12 with the current frame 11, the node
  before the current one (node 0) has no quarter steps although the log of its snapshot is
  not empty; the five entries of the log of frame 12 are in node 1, the current node.
\<close>

theorem quarter_steps_not_from_previous_frame:
  "current_index example_info = 1 \<and>
   quarter_steps (nodes (scene_object_path example_reader example_info) ! 0) = [] \<and>
   map (qsteps_steps example_reader (data (path_states example_info ! 0)))
     [0 ..< nat (sint (qsteps_numSteps example_reader (data (path_states example_info ! 0))))] \<noteq> [] \<and>
   quarter_steps (nodes (scene_object_path example_reader example_info) ! 1) =
     map (qsteps_steps example_reader (data (path_states example_info ! 2))) [0 ..< 5]"
  by (simp add: scene_object_path_def render_mario_path_def current_index_def example_info_def
      example_state_def path_iteration_def Let_def push_quarter_steps_def example_reader_def)

text \<open>
  Claim C5, amended. The path has one node per snapshot of the history, in order, with the
  position read through that snapshot's own rebasing. When the node after the current one
  is appended (the path then holds \<open>current_index + 1\<close> nodes), the fine-step log of the
  snapshot being appended, \<open>history[current_index + 1]\<close>, is copied in log order into the
  quarter steps of the node at \<open>current_index\<close>, the current node. A log of more than
  four entries is copied whole and its length is printed; nothing fails. Where the history
  has no snapshot after the current one nothing is copied and nothing is printed. No other
  node receives quarter steps.
\<close>

theorem quarter_steps_of_next_frame:
  "let sts = path_states info; ci = current_index info;
       path = fst (render_mario_path rd info); out = snd (render_mario_path rd info)
   in length path = length sts \<and>
      (\<forall>i < length sts.
         pos (path ! i) = mario_pos rd (from_base (sizeof_SM64State rd) (sts ! i)
                                         (gMarioState rd (data (sts ! i))))) \<and>
      (ci + 1 < length sts \<longrightarrow>
         quarter_steps (path ! ci) =
           map (qsteps_steps rd (data (sts ! (ci + 1))))
             [0 ..< nat (sint (qsteps_numSteps rd (data (sts ! (ci + 1)))))] \<and>
         out = (if 4 < sint (qsteps_numSteps rd (data (sts ! (ci + 1))))
                then [sint (qsteps_numSteps rd (data (sts ! (ci + 1))))] else [])) \<and>
      (\<not> ci + 1 < length sts \<longrightarrow> out = [] \<and> (\<forall>i < length sts. quarter_steps (path ! i) = [])) \<and>
      (\<forall>i < length sts. i \<noteq> ci \<longrightarrow> quarter_steps (path ! i) = [])"
  by (simp add: Let_def render_mario_path_def mario_path_loop_nodes path_node_closed_def
      path_out_closed_def)

theorem quarter_steps_of_next_frame_witness:
  "length (fst (render_mario_path example_reader example_info)) = 3 \<and>
   quarter_steps (fst (render_mario_path example_reader example_info) ! 1) =
     map (qsteps_steps example_reader 0x3000) [0 ..< 5] \<and>
   snd (render_mario_path example_reader example_info) = [5] \<and>
   quarter_steps (fst (render_mario_path example_reader example_info) ! 0) = [] \<and>
   quarter_steps (fst (render_mario_path example_reader example_info) ! 2) = []"
  using quarter_steps_of_next_frame[of example_info example_reader]
  by (simp add: Let_def current_index_def example_info_def example_state_def example_reader_def)

text \<open>
  Claim C10. In the object path of a scene at most one node has quarter steps: every node
  other than the one at \<open>current_index\<close> has none. Each iteration of the loop appends
  exactly one node, whatever the state of the loop, so the path has \<open>current_index + 1\<close>
  nodes at the start of one iteration at most.
\<close>

theorem one_node_with_quarter_steps:
  "length (filter (\<lambda>n. quarter_steps n \<noteq> []) (nodes (scene_object_path rd info))) \<le> 1 \<and>
   (\<forall>i < length (nodes (scene_object_path rd info)).
      i \<noteq> root_index (scene_object_path rd info) \<longrightarrow>
      quarter_steps (nodes (scene_object_path rd info) ! i) = []) \<and>
   (\<forall>ci st acc. length (fst (path_iteration rd ci st acc)) = length (fst acc) + 1)"
proof -
  let ?path = "nodes (scene_object_path rd info)"
  have others: "\<forall>i < length ?path. i \<noteq> current_index info \<longrightarrow> \<not> quarter_steps (?path ! i) \<noteq> []"
    by (simp add: scene_object_path_def render_mario_path_def mario_path_loop_nodes
        path_node_closed_def)
  from filter_at_most_one[OF others]
  have "length (filter (\<lambda>n. quarter_steps n \<noteq> []) ?path) \<le> 1" .
  moreover have "root_index (scene_object_path rd info) = current_index info"
    by (simp add: scene_object_path_def)
  ultimately show ?thesis
    using others by (simp add: path_iteration_length)
qed

theorem one_node_with_quarter_steps_witness:
  "length (filter (\<lambda>n. quarter_steps n \<noteq> []) (nodes (scene_object_path example_reader example_info))) = 1 \<and>
   root_index (scene_object_path example_reader example_info) = 1 \<and>
   quarter_steps (nodes (scene_object_path example_reader example_info) ! 0) = [] \<and>
   quarter_steps (nodes (scene_object_path example_reader example_info) ! 2) = []"
  using one_node_with_quarter_steps[of example_reader example_info]
  by (simp add: scene_object_path_def render_mario_path_def current_index_def example_info_def
      example_state_def path_iteration_def Let_def push_quarter_steps_def example_reader_def)

section \<open>Command-stream interpreter\<close>

subsection \<open>Decoded fields\<close>

lemma nibble_le: "unat (x AND (0xF :: u32)) \<le> 15"
proof -
  have "unat (x AND 0xF) \<le> unat (0xF :: u32)"
    by (rule word_and_le1 [THEN word_le_nat_alt [THEN iffD1]])
  then show ?thesis by simp
qed

lemma byte_le: "unat (x AND (0xFF :: u32)) \<le> 255"
proof -
  have "unat (x AND 0xFF) \<le> unat (0xFF :: u32)"
    by (rule word_and_le1 [THEN word_le_nat_alt [THEN iffD1]])
  then show ?thesis by simp
qed

lemma vtx_v0_le: "unat (vtx_v0 w0) \<le> 15"
  unfolding vtx_v0_def by (rule nibble_le)

lemma unat_vtx_n: "unat (vtx_n w0) = unat (drop_bit 20 w0 AND 0xF) + 1"
proof -
  have "unat (drop_bit 20 w0 AND 0xF) + unat (1 :: u32) < 2 ^ LENGTH(32)"
    using nibble_le[of "drop_bit 20 w0"] by simp
  then have "unat ((drop_bit 20 w0 AND 0xF) + 1) = unat (drop_bit 20 w0 AND 0xF) + unat (1 :: u32)"
    by (rule unat_add_lem[THEN iffD1])
  then show ?thesis by (simp add: vtx_n_def)
qed

lemma vtx_n_bounds: "1 \<le> unat (vtx_n w0) \<and> unat (vtx_n w0) \<le> 16"
  using nibble_le[of "drop_bit 20 w0"] by (simp add: unat_vtx_n)

lemma vtx_slot_eq:
  assumes "i < unat (vtx_n w0)"
  shows "vtx_slot w0 i = unat (vtx_v0 w0) + i"
proof -
  from assms vtx_n_bounds[of w0] have i: "i < 16" by simp
  then have oi: "unat (of_nat i :: u32) = i" by (simp add: unat_of_nat)
  have "unat (vtx_v0 w0) + unat (of_nat i :: u32) < 2 ^ LENGTH(32)"
    using vtx_v0_le[of w0] i oi by simp
  then have "unat (vtx_v0 w0 + of_nat i) = unat (vtx_v0 w0) + unat (of_nat i :: u32)"
    by (rule unat_add_lem[THEN iffD1])
  with oi show ?thesis by (simp add: vtx_slot_def)
qed

lemma tri_slot_le: "tri_slot sh w1 \<le> 25"
proof -
  have "unat ((drop_bit sh w1 AND 0xFF) div 10) = unat (drop_bit sh w1 AND 0xFF) div 10"
    by (simp add: unat_div)
  with byte_le[of "drop_bit sh w1"] show ?thesis
    by (simp add: tri_slot_def)
qed

lemma accessed_slots_bound: "j \<in> set (accessed_slots w0 w1) \<Longrightarrow> j \<le> 30"
proof -
  assume "j \<in> set (accessed_slots w0 w1)"
  then consider
    (v) i where "i < unat (vtx_n w0)" "j = vtx_slot w0 i"
    | (t) sh where "j = tri_slot sh w1"
    by (auto simp: accessed_slots_def split: if_splits)
  then show ?thesis
  proof cases
    case v
    with vtx_slot_eq[of i w0] vtx_v0_le[of w0] vtx_n_bounds[of w0] show ?thesis by simp
  next
    case t
    with tri_slot_le[of sh w1] show ?thesis by simp
  qed
qed

subsection \<open>The vertex cache\<close>

lemma vector_set_cleared: "vector_set (vector_clear c) i v = None"
  by (simp add: vector_set_def vector_clear_def)

text \<open>
  The count of a vertex load is at least 1, and its first store follows \<open>clear()\<close>: no
  vertex load is defined.
\<close>

lemma gsp_vertex_undefined: "gsp_vertex rd st w0 w1 c = None"
proof -
  from vtx_n_bounds[of w0] have "0 < unat (vtx_n w0)" by simp
  then have "[0 ..< unat (vtx_n w0)] = 0 # [1 ..< unat (vtx_n w0)]"
    by (simp add: upt_conv_Cons)
  then show ?thesis
    by (simp add: gsp_vertex_def Let_def vector_set_cleared)
qed

lemma interp_vertex_undefined:
  "dl_cmd (read_u32 rd dl) = 0x04 \<Longrightarrow>
   interpret_display_list (Suc fuel) rd st dl s = Some (Inl Subscript_beyond_size)"
  by (simp add: Let_def gsp_vertex_undefined)

lemma gsp_1triangle_cache:
  "gsp_1triangle w1 s = Some s' \<Longrightarrow> loaded_vertices s' = loaded_vertices s"
  by (auto simp: gsp_1triangle_def Let_def split: option.splits)

text \<open>While the vector has its 32 elements, every triangle is defined.\<close>

lemma gsp_1triangle_defined:
  assumes "vec_size (loaded_vertices s) = 32"
  shows "\<exists>s'. gsp_1triangle w1 s = Some s'"
  using assms tri_slot_le[of 16 w1] tri_slot_le[of 8 w1] tri_slot_le[of 0 w1]
  by (simp add: gsp_1triangle_def Let_def vector_get_def)

text \<open>One step of the interpreter, by the command at the cursor.\<close>

lemma interp_step_call:
  "read_u32 rd dl = 0x06000000 \<Longrightarrow>
   interpret_display_list (Suc k) rd st dl s =
     (case interpret_display_list k rd st
             (from_base (sizeof_SM64State rd) st (ucast (read_u32 rd (dl + 4)))) s of
        None \<Rightarrow> None
      | Some (Inl d) \<Rightarrow> Some (Inl d)
      | Some (Inr s') \<Rightarrow> interpret_display_list k rd st (dl + 8) s')"
  by (simp add: Let_def dl_cmd_def)

lemma interp_step_branch:
  "read_u32 rd dl = 0x06010000 \<Longrightarrow>
   interpret_display_list (Suc k) rd st dl s =
     interpret_display_list k rd st
       (from_base (sizeof_SM64State rd) st (ucast (read_u32 rd (dl + 4)))) s"
  by (simp add: Let_def dl_cmd_def)

lemma interp_step_unsupported:
  "dl_cmd (read_u32 rd dl) = 0x06 \<Longrightarrow> read_u32 rd dl \<noteq> 0x06000000 \<Longrightarrow>
   read_u32 rd dl \<noteq> 0x06010000 \<Longrightarrow>
   interpret_display_list (Suc k) rd st dl s = Some (Inl (GSPDisplayList (read_u32 rd dl)))"
  by (simp add: Let_def)

lemma interp_step_end:
  "dl_cmd (read_u32 rd dl) = 0xB8 \<Longrightarrow> interpret_display_list (Suc k) rd st dl s = Some (Inr s)"
  by (simp add: Let_def)

lemma interp_step_matrix:
  "dl_cmd (read_u32 rd dl) = 0x01 \<Longrightarrow>
   interpret_display_list (Suc k) rd st dl s = Some (Inl GSPMatrix)"
  by (simp add: Let_def)

lemma interp_step_triangle:
  "dl_cmd (read_u32 rd dl) = 0xBF \<Longrightarrow>
   interpret_display_list (Suc k) rd st dl s =
     (case gsp_1triangle (read_u32 rd (dl + 4)) s of
        None \<Rightarrow> Some (Inl Subscript_beyond_size)
      | Some s' \<Rightarrow> interpret_display_list k rd st (dl + 8) s')"
  by (simp add: Let_def)

lemma interp_step_other:
  "dl_cmd (read_u32 rd dl) \<noteq> 0x01 \<Longrightarrow> dl_cmd (read_u32 rd dl) \<noteq> 0x04 \<Longrightarrow>
   dl_cmd (read_u32 rd dl) \<noteq> 0x06 \<Longrightarrow> dl_cmd (read_u32 rd dl) \<noteq> 0xB8 \<Longrightarrow>
   dl_cmd (read_u32 rd dl) \<noteq> 0xBF \<Longrightarrow>
   interpret_display_list (Suc k) rd st dl s = interpret_display_list k rd st (dl + 8) s"
  by (simp add: Let_def)

text \<open>More fuel does not change an answer.\<close>

lemma interp_mono:
  "interpret_display_list k rd st dl s = Some r \<Longrightarrow>
   interpret_display_list (k + j) rd st dl s = Some r"
proof (induction k arbitrary: dl s r)
  case 0
  then show ?case by simp
next
  case (Suc k)
  let ?w0 = "read_u32 rd dl" and ?w1 = "read_u32 rd (dl + 4)"
  have suc: "Suc k + j = Suc (k + j)" by simp
  consider (matrix) "dl_cmd ?w0 = 0x01"
    | (vertex) "dl_cmd ?w0 = 0x04"
    | (call) "?w0 = 0x06000000"
    | (branch) "?w0 = 0x06010000"
    | (unsupported) "dl_cmd ?w0 = 0x06" "?w0 \<noteq> 0x06000000" "?w0 \<noteq> 0x06010000"
    | (fin) "dl_cmd ?w0 = 0xB8"
    | (tri) "dl_cmd ?w0 = 0xBF"
    | (other) "dl_cmd ?w0 \<noteq> 0x01" "dl_cmd ?w0 \<noteq> 0x04" "dl_cmd ?w0 \<noteq> 0x06"
        "dl_cmd ?w0 \<noteq> 0xB8" "dl_cmd ?w0 \<noteq> 0xBF"
    by blast
  then show ?case
  proof cases
    case matrix
    from Suc.prems show ?thesis
      unfolding suc interp_step_matrix[OF matrix] .
  next
    case vertex
    from Suc.prems show ?thesis
      unfolding suc interp_vertex_undefined[OF vertex] .
  next
    case call
    let ?new = "from_base (sizeof_SM64State rd) st (ucast ?w1)"
    from Suc.prems have run: "(case interpret_display_list k rd st ?new s of
        None \<Rightarrow> None
      | Some (Inl d) \<Rightarrow> Some (Inl d)
      | Some (Inr s') \<Rightarrow> interpret_display_list k rd st (dl + 8) s') = Some r"
      unfolding interp_step_call[OF call] .
    then obtain x where n: "interpret_display_list k rd st ?new s = Some x"
      by (cases "interpret_display_list k rd st ?new s") simp_all
    note n' = Suc.IH[OF n]
    show ?thesis
    proof (cases x)
      case (Inl d)
      with run n have "r = Inl d" by simp
      with n' Inl show ?thesis
        unfolding suc interp_step_call[OF call] by simp
    next
      case (Inr s1)
      with run n have "interpret_display_list k rd st (dl + 8) s1 = Some r" by simp
      from Suc.IH[OF this] n' Inr show ?thesis
        unfolding suc interp_step_call[OF call] by simp
    qed
  next
    case branch
    from Suc.prems have "interpret_display_list k rd st
        (from_base (sizeof_SM64State rd) st (ucast ?w1)) s = Some r"
      unfolding interp_step_branch[OF branch] .
    from Suc.IH[OF this] show ?thesis
      unfolding suc interp_step_branch[OF branch] .
  next
    case unsupported
    from Suc.prems show ?thesis
      unfolding suc interp_step_unsupported[OF unsupported] .
  next
    case fin
    from Suc.prems show ?thesis
      unfolding suc interp_step_end[OF fin] .
  next
    case tri
    show ?thesis
    proof (cases "gsp_1triangle ?w1 s")
      case None
      with Suc.prems show ?thesis
        unfolding suc interp_step_triangle[OF tri] by simp
    next
      case (Some s1)
      with Suc.prems have "interpret_display_list k rd st (dl + 8) s1 = Some r"
        unfolding interp_step_triangle[OF tri] by simp
      from Suc.IH[OF this] Some show ?thesis
        unfolding suc interp_step_triangle[OF tri] by simp
    qed
  next
    case other
    from Suc.prems have "interpret_display_list k rd st (dl + 8) s = Some r"
      unfolding interp_step_other[OF other] .
    from Suc.IH[OF this] show ?thesis
      unfolding suc interp_step_other[OF other] .
  qed
qed

text \<open>An interpretation that returns has not changed the vector.\<close>

lemma interp_cache_unchanged:
  "interpret_display_list k rd st dl s = Some (Inr s') \<Longrightarrow>
   loaded_vertices s' = loaded_vertices s"
proof (induction k arbitrary: dl s s')
  case 0
  then show ?case by simp
next
  case (Suc k)
  let ?w0 = "read_u32 rd dl" and ?w1 = "read_u32 rd (dl + 4)"
  consider (matrix) "dl_cmd ?w0 = 0x01"
    | (vertex) "dl_cmd ?w0 = 0x04"
    | (call) "?w0 = 0x06000000"
    | (branch) "?w0 = 0x06010000"
    | (unsupported) "dl_cmd ?w0 = 0x06" "?w0 \<noteq> 0x06000000" "?w0 \<noteq> 0x06010000"
    | (fin) "dl_cmd ?w0 = 0xB8"
    | (tri) "dl_cmd ?w0 = 0xBF"
    | (other) "dl_cmd ?w0 \<noteq> 0x01" "dl_cmd ?w0 \<noteq> 0x04" "dl_cmd ?w0 \<noteq> 0x06"
        "dl_cmd ?w0 \<noteq> 0xB8" "dl_cmd ?w0 \<noteq> 0xBF"
    by blast
  then show ?case
  proof cases
    case matrix
    from Suc.prems show ?thesis
      unfolding interp_step_matrix[OF matrix] by simp
  next
    case vertex
    from Suc.prems show ?thesis
      unfolding interp_vertex_undefined[OF vertex] by simp
  next
    case call
    let ?new = "from_base (sizeof_SM64State rd) st (ucast ?w1)"
    from Suc.prems have run: "(case interpret_display_list k rd st ?new s of
        None \<Rightarrow> None
      | Some (Inl d) \<Rightarrow> Some (Inl d)
      | Some (Inr s1) \<Rightarrow> interpret_display_list k rd st (dl + 8) s1) = Some (Inr s')"
      unfolding interp_step_call[OF call] .
    then obtain s1 where
      n: "interpret_display_list k rd st ?new s = Some (Inr s1)" and
      c: "interpret_display_list k rd st (dl + 8) s1 = Some (Inr s')"
      by (auto split: option.splits sum.splits)
    from Suc.IH[OF n] Suc.IH[OF c] show ?thesis by simp
  next
    case branch
    from Suc.prems have "interpret_display_list k rd st
        (from_base (sizeof_SM64State rd) st (ucast ?w1)) s = Some (Inr s')"
      unfolding interp_step_branch[OF branch] .
    from Suc.IH[OF this] show ?thesis .
  next
    case unsupported
    from Suc.prems show ?thesis
      unfolding interp_step_unsupported[OF unsupported] by simp
  next
    case fin
    from Suc.prems show ?thesis
      unfolding interp_step_end[OF fin] by simp
  next
    case tri
    from Suc.prems obtain s1 where
      t: "gsp_1triangle ?w1 s = Some s1" and
      run: "interpret_display_list k rd st (dl + 8) s1 = Some (Inr s')"
      unfolding interp_step_triangle[OF tri] by (auto split: option.splits)
    from Suc.IH[OF run] gsp_1triangle_cache[OF t] show ?thesis by simp
  next
    case other
    from Suc.prems have run: "interpret_display_list k rd st (dl + 8) s = Some (Inr s')"
      unfolding interp_step_other[OF other] .
    from Suc.IH[OF run] show ?thesis .
  qed
qed

lemma interp_capacity:
  assumes "length (vec_data (loaded_vertices s)) = 32"
    and "interpret_display_list k rd st dl s = Some (Inr s')"
  shows "length (vec_data (loaded_vertices s')) = 32"
  using assms interp_cache_unchanged[OF assms(2)] by simp

lemma example_read:
  "read_u32 example_reader a = (case map_of example_words a of Some w \<Rightarrow> w | None \<Rightarrow> 0)"
  by (simp add: example_reader_def)

text \<open>
  Claim C3. The claim: a vertex load (opcode \<open>0x04\<close>) writes its \<open>n\<close> positions into the
  slots \<open>v0 ... v0 + n - 1\<close> of the cache, every other slot keeps its contents, and the
  entries stay until another vertex load overwrites them. The vector is built with 32
  elements and every command indexes it by slot, but the case calls
  \<open>loaded_vertices.clear()\<close> before its stores: the vector has no element left, and the
  first store, at slot \<open>v0\<close>, is beyond its size. For the list that loads three vertices
  into the slots 0 to 2, draws their triangle and ends, started with the vector as
  constructed, the interpretation stops at the load: no slot is written within the
  vector, nothing is drawn, and the list does not return.
\<close>

theorem vertex_load_beyond_size:
  "read_u32 example_reader 0x600 = 0x04200000 \<and>
   unat (vtx_n 0x04200000) = 3 \<and> vtx_slot 0x04200000 0 = 0 \<and>
   vec_size initial_loaded_vertices = 32 \<and>
   vec_size (vector_clear initial_loaded_vertices) = 0 \<and>
   vector_set (vector_clear initial_loaded_vertices) (vtx_slot 0x04200000 0)
     (vtx_ob example_reader 0x4000 0) = None \<and>
   gsp_vertex example_reader (example_state 1) 0x04200000 0x4000 initial_loaded_vertices = None \<and>
   interpret_display_list 3 example_reader (example_state 1) 0x600 example_gfx =
     Some (Inl Subscript_beyond_size)"
  by code_simp

subsection \<open>Calls, branches and aborts\<close>

text \<open>
  Claim C9. A command whose opcode byte \<open>w0 >> 24\<close> is \<open>0x01\<close> aborts with the message
  \<open>gSPMatrix\<close>, whatever the rest of the opcode word, the operand word, the cursor, the
  snapshot and the state are.
\<close>

theorem matrix_command_aborts:
  "dl_cmd (read_u32 rd dl) = 0x01 \<Longrightarrow>
   interpret_display_list (Suc fuel) rd st dl s = Some (Inl GSPMatrix)"
  by (simp add: Let_def)

theorem matrix_command_aborts_witness:
  "read_u32 example_reader 0x400 = 0x01234567 \<and> read_u32 example_reader 0x404 = 0xDEADBEEF \<and>
   dl_cmd (read_u32 example_reader 0x400) = 0x01 \<and>
   interpret_display_list (Suc 0) example_reader (example_state 1) 0x400 example_gfx
     = Some (Inl GSPMatrix)"
proof -
  have w: "read_u32 example_reader 0x400 = 0x01234567" "read_u32 example_reader 0x404 = 0xDEADBEEF"
    by (simp_all add: example_read example_words_def)
  have c: "dl_cmd (read_u32 example_reader 0x400) = 0x01"
    by (simp add: w dl_cmd_def)
  from matrix_command_aborts[OF c] w c show ?thesis by blast
qed

lemma interp_call_returns:
  assumes w0: "read_u32 rd dl = 0x06000000"
    and nested: "interpret_display_list k1 rd st
        (from_base (sizeof_SM64State rd) st (ucast (read_u32 rd (dl + 4)))) s = Some (Inr s')"
    and rest: "interpret_display_list k2 rd st (dl + 8) s' = Some r"
  shows "interpret_display_list (Suc (max k1 k2)) rd st dl s = Some r"
proof -
  have c: "dl_cmd (read_u32 rd dl) = 0x06" by (simp add: w0 dl_cmd_def)
  have "max k1 k2 = k1 + (max k1 k2 - k1)" by simp
  with interp_mono[OF nested, of "max k1 k2 - k1"]
  have n: "interpret_display_list (max k1 k2) rd st
        (from_base (sizeof_SM64State rd) st (ucast (read_u32 rd (dl + 4)))) s = Some (Inr s')"
    by simp
  have "max k1 k2 = k2 + (max k1 k2 - k2)" by simp
  with interp_mono[OF rest, of "max k1 k2 - k2"]
  have r: "interpret_display_list (max k1 k2) rd st (dl + 8) s' = Some r" by simp
  show ?thesis
    using c n r by (simp add: Let_def w0)
qed

text \<open>
  Claim C4. For a command with opcode \<open>0x06\<close> and the rebased target \<open>new_dl\<close>:
  \<^item> \<open>w0 = 0x06000000\<close>: the target list is interpreted in a nested run; if that run
    returns, the interpretation goes on at \<open>dl + 8\<close> in the state the nested run left, and
    if it aborts, so does the caller;
  \<^item> \<open>w0 = 0x06010000\<close>: the cursor becomes \<open>new_dl - 8\<close>, which the advance of the loop
    turns into \<open>new_dl\<close>; the result is that of the interpretation from \<open>new_dl\<close>, and
    nothing after \<open>dl\<close> in the original list is run;
  \<^item> any other \<open>w0\<close>: abort with the message \<open>gSPDisplayList\<close>.
\<close>

theorem display_list_call_and_branch:
  "let w0 = read_u32 rd dl;
       new_dl = from_base (sizeof_SM64State rd) st (ucast (read_u32 rd (dl + 4)))
   in (w0 = 0x06000000 \<longrightarrow>
         (\<forall>fuel. interpret_display_list (Suc fuel) rd st dl s =
            (case interpret_display_list fuel rd st new_dl s of
               None \<Rightarrow> None
             | Some (Inl d) \<Rightarrow> Some (Inl d)
             | Some (Inr s') \<Rightarrow> interpret_display_list fuel rd st (dl + 8) s')) \<and>
         (\<forall>k1 k2 s' r.
            interpret_display_list k1 rd st new_dl s = Some (Inr s') \<and>
            interpret_display_list k2 rd st (dl + 8) s' = Some r \<longrightarrow>
            interpret_display_list (Suc (max k1 k2)) rd st dl s = Some r) \<and>
         (\<forall>k d. interpret_display_list k rd st new_dl s = Some (Inl d) \<longrightarrow>
            interpret_display_list (Suc k) rd st dl s = Some (Inl d))) \<and>
      (w0 = 0x06010000 \<longrightarrow>
         (new_dl - 8) + 8 = new_dl \<and>
         (\<forall>fuel. interpret_display_list (Suc fuel) rd st dl s =
            interpret_display_list fuel rd st new_dl s)) \<and>
      (dl_cmd w0 = 0x06 \<and> w0 \<noteq> 0x06000000 \<and> w0 \<noteq> 0x06010000 \<longrightarrow>
         (\<forall>fuel. interpret_display_list (Suc fuel) rd st dl s = Some (Inl (GSPDisplayList w0))))"
proof -
  let ?w0 = "read_u32 rd dl"
  let ?new = "from_base (sizeof_SM64State rd) st (ucast (read_u32 rd (dl + 4)))"
  have call: "\<forall>fuel. interpret_display_list (Suc fuel) rd st dl s =
            (case interpret_display_list fuel rd st ?new s of
               None \<Rightarrow> None
             | Some (Inl d) \<Rightarrow> Some (Inl d)
             | Some (Inr s') \<Rightarrow> interpret_display_list fuel rd st (dl + 8) s')"
    if "?w0 = 0x06000000"
    using that by (simp add: Let_def dl_cmd_def)
  have seq: "\<forall>k1 k2 s' r.
            interpret_display_list k1 rd st ?new s = Some (Inr s') \<and>
            interpret_display_list k2 rd st (dl + 8) s' = Some r \<longrightarrow>
            interpret_display_list (Suc (max k1 k2)) rd st dl s = Some r"
    if "?w0 = 0x06000000"
    using interp_call_returns[OF that] by blast
  have abort: "\<forall>k d. interpret_display_list k rd st ?new s = Some (Inl d) \<longrightarrow>
            interpret_display_list (Suc k) rd st dl s = Some (Inl d)"
    if "?w0 = 0x06000000"
    using that by (simp add: Let_def dl_cmd_def)
  have branch: "\<forall>fuel. interpret_display_list (Suc fuel) rd st dl s =
            interpret_display_list fuel rd st ?new s"
    if "?w0 = 0x06010000"
    using that by (simp add: Let_def dl_cmd_def)
  have bad: "\<forall>fuel. interpret_display_list (Suc fuel) rd st dl s = Some (Inl (GSPDisplayList ?w0))"
    if "dl_cmd ?w0 = 0x06 \<and> ?w0 \<noteq> 0x06000000 \<and> ?w0 \<noteq> 0x06010000"
    using that by (simp add: Let_def)
  have width: "(?new - 8) + 8 = ?new" by simp
  show ?thesis
    unfolding Let_def using call seq abort branch bad width by blast
qed

theorem display_list_call_and_branch_witness:
  "map_option (map_sum id line_loops)
     (interpret_display_list (Suc 4) example_reader (example_state 1) 0x110 example_gfx) =
     Some (Inr [(zero_vec3, zero_vec3, zero_vec3), (zero_vec3, zero_vec3, zero_vec3)]) \<and>
   map_option (map_sum id line_loops)
     (interpret_display_list (Suc 2) example_reader (example_state 1) 0x208 example_gfx) =
     Some (Inr [(zero_vec3, zero_vec3, zero_vec3)]) \<and>
   interpret_display_list (Suc 0) example_reader (example_state 1) 0x500 example_gfx =
     Some (Inl (GSPDisplayList 0x06020000))"
proof -
  have w: "read_u32 example_reader 0x110 = 0x06000000" "read_u32 example_reader (0x110 + 4) = 0x200"
    "read_u32 example_reader 0x208 = 0x06010000" "read_u32 example_reader (0x208 + 4) = 0x300"
    "read_u32 example_reader 0x500 = 0x06020000"
    by (simp_all add: example_read example_words_def)
  have t: "from_base (sizeof_SM64State example_reader) (example_state 1) (ucast (0x200 :: u32)) = 0x200"
    "from_base (sizeof_SM64State example_reader) (example_state 1) (ucast (0x300 :: u32)) = 0x300"
    by (simp_all add: from_base_def example_reader_def example_state_def)
  have c: "dl_cmd (0x06020000 :: u32) = 0x06" "(0x06020000 :: u32) \<noteq> 0x06000000"
    "(0x06020000 :: u32) \<noteq> 0x06010000"
    by (simp_all add: dl_cmd_def)
  note a = display_list_call_and_branch[of example_reader "0x110" "example_state 1" example_gfx,
      unfolded Let_def w t]
  note b = display_list_call_and_branch[of example_reader "0x208" "example_state 1" example_gfx,
      unfolded Let_def w t]
  note d = display_list_call_and_branch[of example_reader "0x500" "example_state 1" example_gfx,
      unfolded Let_def w]
  note a1 = a[THEN conjunct1, THEN mp, OF refl, THEN conjunct1, THEN spec, of 4]
  note b1 = b[THEN conjunct2, THEN conjunct1, THEN mp, OF refl, THEN conjunct2, THEN spec, of 2]
  note d1 = d[THEN conjunct2, THEN conjunct2, THEN mp, OF conjI[OF c(1) conjI[OF c(2) c(3)]],
      THEN spec, of 0]
  have ea: "map_option (map_sum id line_loops)
      (case interpret_display_list 4 example_reader (example_state 1) 0x200 example_gfx of
         None \<Rightarrow> None | Some (Inl d) \<Rightarrow> Some (Inl d)
       | Some (Inr s') \<Rightarrow> interpret_display_list 4 example_reader (example_state 1) (0x110 + 8) s') =
      Some (Inr [(zero_vec3, zero_vec3, zero_vec3), (zero_vec3, zero_vec3, zero_vec3)])"
    by code_simp
  have eb: "map_option (map_sum id line_loops)
      (interpret_display_list 2 example_reader (example_state 1) 0x300 example_gfx) =
      Some (Inr [(zero_vec3, zero_vec3, zero_vec3)])"
    by code_simp
  show ?thesis
    unfolding a1 b1 by (intro conjI) (rule ea eb d1)+
qed

subsection \<open>Capacity of the vertex cache\<close>

text \<open>
  Claim C8. For every command \<open>w0 w1\<close>: a vertex load has \<open>v0 \<le> 15\<close> and \<open>n \<le> 16\<close> and
  writes the slots \<open>v0 + i\<close> for \<open>i < n\<close>, all at most 30; a triangle reads three slots of
  at most 25; so every slot a command indexes is below 32, the capacity that the buffer
  of \<open>loaded_vertices\<close> has from its construction and keeps through every interpretation.
\<close>

theorem cache_slots_within_capacity:
  "unat (vtx_v0 w0) \<le> 15 \<and> unat (vtx_n w0) \<le> 16 \<and>
   (\<forall>i < unat (vtx_n w0). vtx_slot w0 i = unat (vtx_v0 w0) + i \<and> vtx_slot w0 i \<le> 30) \<and>
   tri_slot 16 w1 \<le> 25 \<and> tri_slot 8 w1 \<le> 25 \<and> tri_slot 0 w1 \<le> 25 \<and>
   (\<forall>j \<in> set (accessed_slots w0 w1). j < 32) \<and>
   length (vec_data initial_loaded_vertices) = 32 \<and>
   (\<forall>fuel (rd :: 'p::len sm64_reader) st dl s s'.
      length (vec_data (loaded_vertices s)) = 32 \<and>
      interpret_display_list fuel rd st dl s = Some (Inr s') \<longrightarrow>
      length (vec_data (loaded_vertices s')) = 32)"
proof -
  have slots: "\<forall>i < unat (vtx_n w0). vtx_slot w0 i = unat (vtx_v0 w0) + i \<and> vtx_slot w0 i \<le> 30"
    using vtx_v0_le[of w0] vtx_n_bounds[of w0] by (simp add: vtx_slot_eq)
  have acc: "\<forall>j \<in> set (accessed_slots w0 w1). j < 32"
    using accessed_slots_bound[of _ w0 w1] by fastforce
  have cap: "\<forall>fuel (rd :: 'p sm64_reader) st dl s s'.
      length (vec_data (loaded_vertices s)) = 32 \<and>
      interpret_display_list fuel rd st dl s = Some (Inr s') \<longrightarrow>
      length (vec_data (loaded_vertices s')) = 32"
    using interp_capacity by blast
  have init: "length (vec_data initial_loaded_vertices) = 32"
    by (simp add: initial_loaded_vertices_def)
  show ?thesis
    using vtx_v0_le[of w0] vtx_n_bounds[of w0] slots tri_slot_le acc init cap by blast
qed

theorem cache_slots_within_capacity_witness:
  "unat (vtx_n 0x04FF0000) = 16 \<and> vtx_slot 0x04FF0000 15 = 30 \<and>
   tri_slot 16 0xBFFFFFFF = 25 \<and>
   accessed_slots 0x04200000 0x4000 = [0, 1, 2] \<and>
   accessed_slots 0xBF000000 0x001E2800 = [3, 4, 0]"
proof -
  have n: "unat (vtx_n 0x04FF0000) = 16" by (simp add: vtx_n_def)
  have s: "vtx_slot 0x04FF0000 15 = 30" by (simp add: vtx_slot_def vtx_v0_def)
  have t: "tri_slot 16 0xBFFFFFFF = 25" by (simp add: tri_slot_def)
  have a: "accessed_slots 0x04200000 0x4000 = [0, 1, 2]"
    "accessed_slots 0xBF000000 0x001E2800 = [3, 4, 0]"
    by (simp_all add: accessed_slots_def dl_cmd_def vtx_n_def vtx_slot_def vtx_v0_def tri_slot_def
        upt_rec)
  from cache_slots_within_capacity[of "0x04FF0000" "0xBFFFFFFF"] n s t a
  show ?thesis by blast
qed

end
